theory Spec2Isabelle
  imports Main "HOL-Library.Sublist"
begin

section \<open>Python text operations used by the pipeline\<close>

text \<open>
  Python \<open>str\<close> values are modelled as \<^typ>\<open>string\<close>. The pipeline uses four
  text operations: \<open>str.strip()\<close>, \<open>str.lower()\<close>, the substring test \<open>in\<close> and
  \<open>"\n".join(...)\<close>, besides concatenation and the decimal rendering of the iteration
  counter inside f-strings. A character stands for a code point below 256: \<open>whitespace\<close>
  lists the code points in that range that \<open>str.strip()\<close> removes, and \<open>lower\<close> folds the
  letters A to Z.
\<close>

definition NL :: string where
  "NL = [CHR 0x0A]"

definition whitespace :: "char list" where
  "whitespace = [CHR 0x09, CHR 0x0A, CHR 0x0B, CHR 0x0C, CHR 0x0D,
                 CHR 0x1C, CHR 0x1D, CHR 0x1E, CHR 0x1F, CHR 0x20,
                 CHR 0x85, CHR 0xA0]"

definition is_space :: "char \<Rightarrow> bool" where
  "is_space c = (c \<in> set whitespace)"

definition strip :: "string \<Rightarrow> string" where
  "strip s = rev (dropWhile is_space (rev (dropWhile is_space s)))"

definition ascii_uppercase :: string where
  "ascii_uppercase = ''ABCDEFGHIJKLMNOPQRSTUVWXYZ''"

definition ascii_lowercase :: string where
  "ascii_lowercase = ''abcdefghijklmnopqrstuvwxyz''"

definition lower_char :: "char \<Rightarrow> char" where
  "lower_char c = (case map_of (zip ascii_uppercase ascii_lowercase) c of
                     Some d \<Rightarrow> d | None \<Rightarrow> c)"

definition lower :: "string \<Rightarrow> string" where
  "lower s = map lower_char s"

text \<open>\<open>s in t\<close> for two Python strings: \<open>s\<close> occurs in \<open>t\<close> as a contiguous block.\<close>

fun str_in :: "string \<Rightarrow> string \<Rightarrow> bool" where
  "str_in s [] = (s = [])"
| "str_in s (c # cs) = (prefix s (c # cs) \<or> str_in s cs)"

fun join :: "string \<Rightarrow> string list \<Rightarrow> string" where
  "join sep [] = []"
| "join sep [x] = x"
| "join sep (x # y # ys) = x @ sep @ join sep (y # ys)"

fun digits :: "nat \<Rightarrow> string" where
  "digits n = (if n < 10 then [''0123456789'' ! n]
               else digits (n div 10) @ [''0123456789'' ! (n mod 10)])"

definition str_int :: "int \<Rightarrow> string" where
  "str_int i = (if i < 0 then ''-'' @ digits (nat (- i)) else digits (nat i))"


section \<open>External capabilities\<close>

text \<open>
  Every call the program makes to the outside world (the chat completion service, the
  file system, the byte compiler and the interpreter subprocess) is a field of the record
  \<open>capabilities\<close>. A call that raises a Python \<open>Exception\<close> is the value \<open>Inl e\<close>
  (or \<open>Some e\<close> for a call with no result), where \<open>e\<close> is the text \<open>str(e)\<close> that the
  program's f-strings render. The caller identifies the call site, so two sites may be
  answered differently even on equal arguments. The fixed system message, model name and
  temperature of a chat call are determined by its call site and are part of the
  capability, not of the argument.

  An environment gives the capabilities in force at each moment of a run: index \<open>0\<close>
  outside the review loop (manager and reporter), index \<open>i\<close> during the loop body that
  runs with \<open>review_count = i\<close>. Nothing is assumed about how the answers at different
  moments relate.
\<close>

datatype caller = Manager | Coder | Bojack | MrPeanut | SaveFeedback | Judge | Reporter

record completed_process =
  returncode :: int
  stdout :: string
  stderr :: string

datatype compile_outcome =
    Compiled
  | PyCompileError string
  | CompileRaised string

record capabilities =
  chat :: "caller \<Rightarrow> string \<Rightarrow> string + string"
  makedirs :: "caller \<Rightarrow> string \<Rightarrow> string option"
  open_write :: "string \<Rightarrow> string \<Rightarrow> string option"
  py_compile :: "string \<Rightarrow> compile_outcome"
  subprocess_run :: "string \<Rightarrow> string + completed_process"

type_synonym env = "int \<Rightarrow> capabilities"


section \<open>The nodes\<close>

record coder_result =
  code :: string
  output_text :: string

record feedback =
  negative_feedback :: string
  positive_feedback :: string

record judge_decision =
  achieved :: bool
  instruction :: string

definition output_directory :: string where
  "output_directory = ''./output''"

definition path_join :: "string \<Rightarrow> string \<Rightarrow> string" where
  "path_join d f = d @ ''/'' @ f"

subsection \<open>manager_function\<close>

definition manager_function :: "capabilities \<Rightarrow> string \<Rightarrow> string" where
  "manager_function w request =
     (case chat w Manager request of
        Inr content \<Rightarrow> strip content
      | Inl e \<Rightarrow> ''An error occurred in manager_function: '' @ e)"

subsection \<open>coder_function\<close>

definition coder_prompt :: "string \<Rightarrow> string \<Rightarrow> string" where
  "coder_prompt plan extra_instruction =
     (let prompt =
        ''Here is the plan:'' @ NL @ NL @ plan @ NL @ NL @
        ''Please produce only the Python code implementation for the above plan. '' @
        ''Ensure that the code is plain Python (do not include markdown formatting such as triple backticks) '' @
        ''and that it compiles without syntax errors.''
      in if extra_instruction \<noteq> []
         then prompt @ NL @ NL @
              ''Additionally, incorporate the following instruction into your code: '' @
              extra_instruction
         else prompt)"

definition coder_failed :: "string \<Rightarrow> coder_result" where
  "coder_failed e = \<lparr>code = [], output_text = ''An error occurred in coder_function: '' @ e\<rparr>"

definition coder_function :: "capabilities \<Rightarrow> string \<Rightarrow> string \<Rightarrow> coder_result" where
  "coder_function w plan extra_instruction =
     (case chat w Coder (coder_prompt plan extra_instruction) of
        Inl e \<Rightarrow> coder_failed e
      | Inr content \<Rightarrow>
          let code_text = strip content;
              script_path = path_join output_directory ''solution.py''
          in case makedirs w Coder output_directory of
               Some e \<Rightarrow> coder_failed e
             | None \<Rightarrow>
                (case open_write w script_path code_text of
                   Some e \<Rightarrow> coder_failed e
                 | None \<Rightarrow>
                    (case py_compile w code_text of
                       CompileRaised e \<Rightarrow> coder_failed e
                     | checked \<Rightarrow>
                        let syntax_error =
                              (case checked of
                                 PyCompileError e \<Rightarrow> ''Syntax error detected: '' @ e
                               | _ \<Rightarrow> []);
                            execution_output =
                              (case subprocess_run w code_text of
                                 Inr result \<Rightarrow> stdout result @ NL @ stderr result
                               | Inl e \<Rightarrow> ''Error running code: '' @ e);
                            execution_output =
                              (if syntax_error \<noteq> []
                               then syntax_error @ NL @ execution_output
                               else execution_output)
                        in \<lparr>code = code_text, output_text = execution_output\<rparr>)))"

subsection \<open>The two critics and their fan-out\<close>

definition bojack_prompt :: "coder_result \<Rightarrow> string" where
  "bojack_prompt data =
     ''Please critique the following Python script and its execution output:'' @ NL @ NL @
     ''--- CODE ---'' @ NL @ code data @ NL @ NL @
     ''--- EXECUTION OUTPUT ---'' @ NL @ output_text data @ NL @ NL @
     ''Provide a detailed, purely critical evaluation, prioritizing any syntax or compilation errors.''"

definition bojack_horseman_function :: "capabilities \<Rightarrow> coder_result \<Rightarrow> string" where
  "bojack_horseman_function w data =
     (case chat w Bojack (bojack_prompt data) of
        Inr content \<Rightarrow> strip content
      | Inl e \<Rightarrow> ''An error occurred in bojack_horseman_function: '' @ e)"

definition mr_peanut_prompt :: "coder_result \<Rightarrow> string" where
  "mr_peanut_prompt data =
     ''Please praise the following Python script and its execution output:'' @ NL @ NL @
     ''--- CODE ---'' @ NL @ code data @ NL @ NL @
     ''--- EXECUTION OUTPUT ---'' @ NL @ output_text data @ NL @ NL @
     ''Provide a detailed, purely positive evaluation.''"

definition mr_peanut_butter_function :: "capabilities \<Rightarrow> coder_result \<Rightarrow> string" where
  "mr_peanut_butter_function w data =
     (case chat w MrPeanut (mr_peanut_prompt data) of
        Inr content \<Rightarrow> strip content
      | Inl e \<Rightarrow> ''An error occurred in mr_peanut_butter_function: '' @ e)"

text \<open>
  \<open>asyncio.gather\<close> returns the two results in the order of its arguments once both
  executor jobs have finished; each job is a function that catches every \<open>Exception\<close>
  itself, so the join always receives two strings.
\<close>

definition async_feedback_branch :: "capabilities \<Rightarrow> coder_result \<Rightarrow> feedback" where
  "async_feedback_branch w data =
     \<lparr>negative_feedback = bojack_horseman_function w data,
      positive_feedback = mr_peanut_butter_function w data\<rparr>"

subsection \<open>save_feedback_function\<close>

text \<open>
  The directory is created before the \<open>try\<close> block, so an exception of
  \<open>os.makedirs\<close> leaves the function (\<open>Inl\<close>); an exception while opening or writing
  either file is caught and becomes the returned message.
\<close>

definition save_feedback_function :: "capabilities \<Rightarrow> feedback \<Rightarrow> string + string" where
  "save_feedback_function w fb =
     (case makedirs w SaveFeedback output_directory of
        Some e \<Rightarrow> Inl e
      | None \<Rightarrow>
         let bojack_file = path_join output_directory ''bojack_horseman.txt'';
             mr_peanut_file = path_join output_directory ''mr_peanut_butter.txt''
         in case open_write w bojack_file (negative_feedback fb) of
              Some e \<Rightarrow> Inr (''An error occurred while saving feedback: '' @ e)
            | None \<Rightarrow>
               (case open_write w mr_peanut_file (positive_feedback fb) of
                  Some e \<Rightarrow> Inr (''An error occurred while saving feedback: '' @ e)
                | None \<Rightarrow>
                   Inr (''Feedback saved successfully: '' @ bojack_file @ '', '' @ mr_peanut_file)))"

subsection \<open>judge_function\<close>

definition final_review_instruction :: string where
  "final_review_instruction =
     NL @ ''This is your final review. End the process by providing a final summary, '' @
     ''regardless of whether the script fully meets the outline or not.''"

definition judge_base_prompt ::
  "string \<Rightarrow> coder_result \<Rightarrow> feedback \<Rightarrow> string list \<Rightarrow> string" where
  "judge_base_prompt manager_outline cr fb conversation_history =
     (let judge_prompt =
        ''Manager's Outline:'' @ NL @ manager_outline @ NL @ NL @
        ''Python Code:'' @ NL @ code cr @ NL @ NL @
        ''Execution Output:'' @ NL @ output_text cr @ NL @ NL @
        ''Feedback from bojack_horseman (critical):'' @ NL @ negative_feedback fb @ NL @ NL @
        ''Feedback from mr_peanut_butter (positive):'' @ NL @ positive_feedback fb @ NL @ NL @
        ''Based on the above, determine whether the script achieves the Manager's outline. '' @
        ''If a syntax or compilation error is present, prioritize this as the main issue that must be fixed immediately. '' @
        ''If the script meets the outline, provide a brief summary and state that the goal has been achieved. '' @
        ''If not, provide clear instructions for the coder to modify the code. '' @
        ''Do not invent issues or strengths beyond what is provided.''
      in if conversation_history \<noteq> []
         then judge_prompt @ NL @ NL @ ''Conversation History:'' @ NL @
              join NL conversation_history
         else judge_prompt)"

definition judge_prompt ::
  "int \<Rightarrow> string \<Rightarrow> coder_result \<Rightarrow> feedback \<Rightarrow> int \<Rightarrow> string list \<Rightarrow> string" where
  "judge_prompt max_review_iterations manager_outline cr fb review_count conversation_history =
     (let p = judge_base_prompt manager_outline cr fb conversation_history
      in if review_count \<ge> max_review_iterations
         then p @ final_review_instruction
         else p)"

definition judge_function ::
  "capabilities \<Rightarrow> int \<Rightarrow> string \<Rightarrow> coder_result \<Rightarrow> feedback \<Rightarrow> int \<Rightarrow> string list
     \<Rightarrow> judge_decision" where
  "judge_function w max_review_iterations manager_outline cr fb review_count conversation_history =
     (case chat w Judge
             (judge_prompt max_review_iterations manager_outline cr fb review_count
                conversation_history) of
        Inr content \<Rightarrow>
          let judge_response = strip content
          in \<lparr>achieved = (str_in ''achieved'' (lower judge_response)
                          \<or> str_in ''final summary'' (lower judge_response)),
              instruction = judge_response\<rparr>
      | Inl e \<Rightarrow>
          \<lparr>achieved = False, instruction = ''An error occurred in judge_function: '' @ e\<rparr>)"

subsection \<open>reporter_function\<close>

definition report_instructions :: string where
  "report_instructions =
     ''Please produce a detailed report summarizing the conversation between all LLMs in the following format:'' @ NL @ NL @
     ''- **Manager to Coder**: Manager provided a detailed outline for a task involving generating and visualizing a positively skewed distribution.'' @ NL @
     ''- **Coder to Bojack/Mr_Peanut (Iteration 1)**: Coder shared the generated code and its execution output for feedback.'' @ NL @
     ''- **Bojack_Horseman/Mr_Peanut (Iteration 1)**: Provided critical and positive feedback on the Coder's initial output.'' @ NL @
     ''- **Judge to Coder (Iteration 1)**: Judge acknowledged the script's effectiveness but pointed out a runtime error, suggesting a solution.'' @ NL @
     ''- **Coder to Bojack/Mr_Peanut (Iteration 2)**: Coder submitted the revised code and execution output after addressing Judge's feedback.'' @ NL @
     ''- **Bojack_Horseman/Mr_Peanut (Iteration 2)**: Offered further critical and positive feedback on the revised code.'' @ NL @
     ''- **Judge to Coder (Iteration 2)**: Judge confirmed the script now fully meets the Manager's outline, with improvements and no critical errors.'' @ NL @
     ''- **Judge**: Declared the task completed successfully, achieving the goal set out by the Manager, and ended the pipeline.'' @ NL @ NL @
     ''Now, using the following conversation log, produce a bullet-point summary of the conversation:''"

definition reporter_function :: "capabilities \<Rightarrow> string list \<Rightarrow> string" where
  "reporter_function w conversation_log =
     (let report_prompt = report_instructions @ NL @ NL @ join NL conversation_log
      in case chat w Reporter report_prompt of
           Inl e \<Rightarrow> ''An error occurred in reporter_function: '' @ e
         | Inr content \<Rightarrow>
            let report_text = strip content;
                report_path = path_join output_directory ''report.txt''
            in case open_write w report_path report_text of
                 Some e \<Rightarrow> ''An error occurred in reporter_function: '' @ e
               | None \<Rightarrow>
                  ''Report saved successfully to '' @ report_path @ NL @ NL @
                  ''Report:'' @ NL @ report_text)"


section \<open>The review loop of main\<close>

text \<open>The entries that \<open>main\<close> appends to the conversation log.\<close>

definition manager_entry :: string where
  "manager_entry = ''**Manager to Coder**: Manager provided the detailed outline for the task.''"

definition coder_entry :: "int \<Rightarrow> string" where
  "coder_entry review_count =
     ''**Coder to Bojack/Mr_Peanut (Iteration '' @ str_int review_count @
     '')**: Coder generated the code and execution output.''"

definition feedback_entry :: "int \<Rightarrow> string" where
  "feedback_entry review_count =
     ''**Bojack_Horseman/Mr_Peanut (Iteration '' @ str_int review_count @
     '')**: Provided critical and positive feedback on the coder's output.''"

definition judge_entry :: "int \<Rightarrow> string \<Rightarrow> string" where
  "judge_entry review_count instr =
     ''**Judge to Coder (Iteration '' @ str_int review_count @ '')**: '' @ instr"

definition success_entry :: string where
  "success_entry =
     ''**Judge**: Declared the task completed successfully, achieving the goal set out by the Manager, and ended the pipeline.''"

definition exhausted_entry :: string where
  "exhausted_entry =
     ''**Judge**: Final review completed. Pipeline terminates without fully meeting the goal.''"

text \<open>
  One record per execution of the loop body: the value of \<open>review_count\<close> it ran with and
  what its steps produced. \<open>judged\<close> is \<open>None\<close> when the body was left by an exception
  before \<open>judge_function\<close> was called. The list of these records is a history kept next
  to the program variables; the program itself does not read it.
\<close>

record cycle =
  ran_at :: int
  generated :: coder_result
  critiques :: feedback
  judged :: "judge_decision option"

text \<open>
  The variables of \<open>main\<close> that live across iterations, the global \<open>conversation_log\<close>,
  and \<open>uncaught\<close>: the exception, if any, that has left \<open>main\<close>. The field
  \<open>satisfied\<close> is the local variable \<open>achieved\<close> of \<open>main\<close>; the name \<open>achieved\<close> is
  kept for the key of the judge's decision.
\<close>

record loop_state =
  review_count :: int
  satisfied :: bool
  extra_instruction :: string
  conversation_log :: "string list"
  uncaught :: "string option"
  cycles :: "cycle list"

definition loop_body :: "env \<Rightarrow> int \<Rightarrow> string \<Rightarrow> loop_state \<Rightarrow> loop_state" where
  "loop_body ev max_review_iterations manager_outline s =
     (let w = ev (review_count s);
          cr = coder_function w manager_outline (extra_instruction s);
          log1 = conversation_log s @ [coder_entry (review_count s)];
          fb = async_feedback_branch w cr;
          log2 = log1 @ [feedback_entry (review_count s)]
      in case save_feedback_function w fb of
           Inl e \<Rightarrow>
             s\<lparr>conversation_log := log2,
               uncaught := Some e,
               cycles := cycles s @
                 [\<lparr>ran_at = review_count s, generated = cr, critiques = fb, judged = None\<rparr>]\<rparr>
         | Inr saved \<Rightarrow>
             let jd = judge_function w max_review_iterations manager_outline cr fb
                        (review_count s) log2;
                 log3 = log2 @ [judge_entry (review_count s) (instruction jd)];
                 c = \<lparr>ran_at = review_count s, generated = cr, critiques = fb,
                      judged = Some jd\<rparr>
             in if achieved jd
                then s\<lparr>satisfied := True,
                       conversation_log := log3 @ [success_entry],
                       cycles := cycles s @ [c]\<rparr>
                else s\<lparr>extra_instruction := instruction jd,
                       review_count := review_count s + 1,
                       conversation_log := log3,
                       cycles := cycles s @ [c]\<rparr>)"

text \<open>
  \<open>while review_count <= CONFIG["max_review_iterations"] and not achieved\<close>. The
  \<open>break\<close> of the source follows the assignment \<open>achieved = True\<close>, after which the
  loop condition is false as well; an uncaught exception leaves the loop at once.
\<close>

function main_loop :: "env \<Rightarrow> int \<Rightarrow> string \<Rightarrow> loop_state \<Rightarrow> loop_state" where
  "main_loop ev max_review_iterations manager_outline s =
     (if review_count s \<le> max_review_iterations \<and> \<not> satisfied s \<and> uncaught s = None
      then main_loop ev max_review_iterations manager_outline
             (loop_body ev max_review_iterations manager_outline s)
      else s)"
  by pat_completeness auto
termination
proof (relation "measure (\<lambda>(ev, m, outline, s).
          if satisfied s \<or> uncaught s \<noteq> None then 0 else nat (m + 1 - review_count s))")
  show "wf (measure (\<lambda>(ev, m, outline, s).
          if satisfied s \<or> uncaught s \<noteq> None then 0 else nat (m + 1 - review_count s)))"
    by simp
next
  fix ev :: env and max_review_iterations :: int and manager_outline :: string
    and s :: loop_state
  assume "review_count s \<le> max_review_iterations \<and> \<not> satisfied s \<and> uncaught s = None"
  then show "((ev, max_review_iterations, manager_outline,
                loop_body ev max_review_iterations manager_outline s),
              (ev, max_review_iterations, manager_outline, s))
             \<in> measure (\<lambda>(ev, m, outline, s).
                  if satisfied s \<or> uncaught s \<noteq> None then 0
                  else nat (m + 1 - review_count s))"
    by (auto simp: loop_body_def Let_def split: sum.splits)
qed

declare main_loop.simps [simp del]

record run =
  final :: loop_state
  report_result :: "string option"

definition initial_state :: loop_state where
  "initial_state =
     \<lparr>review_count = 1, satisfied = False, extra_instruction = [],
      conversation_log = [manager_entry], uncaught = None, cycles = []\<rparr>"

text \<open>
  \<open>main\<close>, given the line read by \<open>input\<close> and the configured
  \<open>CONFIG["max_review_iterations"]\<close> (3 in the source). When an exception has left the
  loop, the statements after the loop are not executed.
\<close>

definition main :: "env \<Rightarrow> int \<Rightarrow> string \<Rightarrow> run" where
  "main ev max_review_iterations user_request =
     (let manager_outline = manager_function (ev 0) user_request;
          s = main_loop ev max_review_iterations manager_outline initial_state
      in if uncaught s \<noteq> None then \<lparr>final = s, report_result = None\<rparr>
         else
           let s' = (if \<not> satisfied s
                     then s\<lparr>conversation_log := conversation_log s @ [exhausted_entry]\<rparr>
                     else s)
           in \<lparr>final = s',
               report_result = Some (reporter_function (ev 0) (conversation_log s'))\<rparr>)"

text \<open>
  \<open>if __name__ == "__main__": asyncio.run(main())\<close>: the interpreter exits with status
  0 when \<open>main\<close> returns and with status 1 when an exception leaves it.
\<close>

definition exit_status :: "env \<Rightarrow> int \<Rightarrow> string \<Rightarrow> int" where
  "exit_status ev max_review_iterations user_request =
     (if uncaught (final (main ev max_review_iterations user_request)) = None then 0 else 1)"


section \<open>Notions used to state the properties\<close>

text \<open>
  The satisfaction marker policy in the words of the specification: the text contains
  the phrase "achieved" or the phrase "final summary", letter case ignored.
\<close>

definition marker_policy :: "string \<Rightarrow> bool" where
  "marker_policy t = (str_in ''achieved'' (lower t) \<or> str_in ''final summary'' (lower t))"

text \<open>
  The text that the chat service returned to \<open>judge_function\<close> in the loop body started
  in state \<open>s\<close>; \<open>None\<close> when \<open>judge_function\<close> was not reached or its call raised.
\<close>

definition judge_reply :: "env \<Rightarrow> int \<Rightarrow> string \<Rightarrow> loop_state \<Rightarrow> string option" where
  "judge_reply ev max_review_iterations manager_outline s =
     (let w = ev (review_count s);
          cr = coder_function w manager_outline (extra_instruction s);
          fb = async_feedback_branch w cr;
          log2 = conversation_log s @ [coder_entry (review_count s), feedback_entry (review_count s)]
      in case save_feedback_function w fb of
           Inl e \<Rightarrow> None
         | Inr saved \<Rightarrow>
            (case chat w Judge (judge_prompt max_review_iterations manager_outline cr fb
                                 (review_count s) log2) of
               Inr content \<Rightarrow> Some content
             | Inl e \<Rightarrow> None))"

text \<open>
  Concrete environments for evaluating the model: every call site but the judge is
  answered with the program text \<open>pass\<close>, files can be written, and the remaining
  outcomes are those given.
\<close>

definition scripted ::
  "string + string \<Rightarrow> string option \<Rightarrow> compile_outcome \<Rightarrow> string + completed_process
     \<Rightarrow> capabilities" where
  "scripted judge_says mk checked proc =
     \<lparr>chat = (\<lambda>c p. if c = Judge then judge_says else Inr ''pass''),
      makedirs = (\<lambda>c d. mk),
      open_write = (\<lambda>p t. None),
      py_compile = (\<lambda>t. checked),
      subprocess_run = (\<lambda>t. proc)\<rparr>"

definition clean_exit :: completed_process where
  "clean_exit = \<lparr>returncode = 0, stdout = [], stderr = []\<rparr>"

definition approving_env :: env where
  "approving_env = (\<lambda>i. scripted (Inr ''The goal has been achieved.'') None Compiled (Inr clean_exit))"


definition failed_exit :: completed_process where
  "failed_exit = \<lparr>returncode = 1, stdout = [], stderr = ''ZeroDivisionError: division by zero''\<rparr>"

definition demanding_env :: env where
  "demanding_env = (\<lambda>i. scripted (Inr ''Fix the division by zero.'') None Compiled (Inr failed_exit))"

definition file_exists_error :: string where
  "file_exists_error = ''[Errno 17] File exists: '' @ [CHR 0x27] @ ''./output'' @ [CHR 0x27]"

definition blocked_env :: env where
  "blocked_env = (\<lambda>i. scripted (Inr ''The goal has been achieved.'')
                      (Some file_exists_error) Compiled (Inr clean_exit))"

definition judge_down :: capabilities where
  "judge_down = scripted (Inl ''goal achieved, final summary unavailable'') None Compiled (Inr clean_exit)"

definition one_critic_down :: capabilities where
  "one_critic_down =
     \<lparr>chat = (\<lambda>c p. if c = Bojack then Inl ''Connection error.'' else Inr '' Clear and correct. ''),
      makedirs = (\<lambda>c d. None),
      open_write = (\<lambda>p t. None),
      py_compile = (\<lambda>t. Compiled),
      subprocess_run = (\<lambda>t. Inr clean_exit)\<rparr>"

definition syntax_broken :: capabilities where
  "syntax_broken = scripted (Inr ''Fix the syntax.'') None (PyCompileError ''invalid syntax'')
                     (Inr \<lparr>returncode = 1, stdout = ''partial'', stderr = ''SyntaxError''\<rparr>)"

text \<open>Whether a recorded loop body obtained a judge decision with \<open>achieved\<close> true.\<close>

definition judged_satisfied :: "cycle \<Rightarrow> bool" where
  "judged_satisfied c = (case judged c of None \<Rightarrow> False | Some jd \<Rightarrow> achieved jd)"


section \<open>Facts about the text operations\<close>

lemma str_in_iff: "str_in s t \<longleftrightarrow> (\<exists>p q. t = p @ s @ q)"
proof (induction t)
  case Nil
  show ?case by auto
next
  case (Cons c cs)
  show ?case
  proof
    assume "str_in s (c # cs)"
    then consider "prefix s (c # cs)" | "str_in s cs" by auto
    then show "\<exists>p q. c # cs = p @ s @ q"
    proof cases
      case 1
      then obtain q where "c # cs = s @ q" by (auto simp: prefix_def)
      then have "c # cs = [] @ s @ q" by simp
      then show ?thesis by blast
    next
      case 2
      with Cons obtain p q where "cs = p @ s @ q" by auto
      then have "c # cs = (c # p) @ s @ q" by simp
      then show ?thesis by blast
    qed
  next
    assume "\<exists>p q. c # cs = p @ s @ q"
    then obtain p q where pq: "c # cs = p @ s @ q" by blast
    show "str_in s (c # cs)"
    proof (cases p)
      case Nil
      with pq have "prefix s (c # cs)" by (simp add: prefix_def)
      then show ?thesis by simp
    next
      case (Cons a p')
      with pq have "cs = p' @ s @ q" by simp
      with Cons.IH have "str_in s cs" by blast
      then show ?thesis by simp
    qed
  qed
qed

lemma str_in_map: "str_in s t \<Longrightarrow> str_in (map f s) (map f t)"
  unfolding str_in_iff by (metis map_append)

lemma str_in_rev: "str_in s t \<Longrightarrow> str_in (rev s) (rev t)"
  unfolding str_in_iff by (metis rev_append append.assoc)

lemma str_in_dropWhile:
  assumes "str_in s t" and "s \<noteq> []" and "\<not> P (hd s)"
  shows "str_in s (dropWhile P t)"
proof -
  from assms(1) obtain p q where t: "t = p @ (s @ q)" by (auto simp: str_in_iff)
  from assms(2,3) have keep: "dropWhile P (s @ q) = s @ q" by (cases s) auto
  have "\<exists>p'. dropWhile P t = p' @ s @ q"
  proof (cases "\<forall>x\<in>set p. P x")
    case True
    then have "dropWhile P t = dropWhile P (s @ q)" unfolding t by (simp only: dropWhile_append2)
    with keep have "dropWhile P t = [] @ s @ q" by simp
    then show ?thesis by blast
  next
    case False
    then obtain x where "x \<in> set p" and "\<not> P x" by blast
    then have "dropWhile P t = dropWhile P p @ s @ q" unfolding t by (rule dropWhile_append1)
    then show ?thesis by blast
  qed
  then show ?thesis by (auto simp: str_in_iff)
qed

lemma str_in_dropWhile_back: "str_in s (dropWhile P t) \<Longrightarrow> str_in s t"
proof -
  assume "str_in s (dropWhile P t)"
  then obtain p q where "dropWhile P t = p @ s @ q" by (auto simp: str_in_iff)
  then have "t = (takeWhile P t @ p) @ s @ q" by (metis takeWhile_dropWhile_id append.assoc)
  then show ?thesis unfolding str_in_iff by blast
qed

lemma str_in_strip:
  assumes "s \<noteq> []" and "\<not> is_space (hd s)" and "\<not> is_space (last s)"
  shows "str_in s (strip t) \<longleftrightarrow> str_in s t"
proof
  assume "str_in s t"
  then have "str_in s (dropWhile is_space t)" using assms by (simp add: str_in_dropWhile)
  then have "str_in (rev s) (rev (dropWhile is_space t))" by (rule str_in_rev)
  then have "str_in (rev s) (dropWhile is_space (rev (dropWhile is_space t)))"
    using assms by (simp add: str_in_dropWhile hd_rev)
  then have "str_in (rev (rev s)) (rev (dropWhile is_space (rev (dropWhile is_space t))))"
    by (rule str_in_rev)
  then show "str_in s (strip t)" by (simp add: strip_def)
next
  assume "str_in s (strip t)"
  then have "str_in (rev s) (rev (strip t))" by (rule str_in_rev)
  then have "str_in (rev s) (dropWhile is_space (rev (dropWhile is_space t)))"
    by (simp add: strip_def)
  then have "str_in (rev s) (rev (dropWhile is_space t))" by (rule str_in_dropWhile_back)
  then have "str_in (rev (rev s)) (rev (rev (dropWhile is_space t)))" by (rule str_in_rev)
  then have "str_in s (dropWhile is_space t)" by simp
  then show "str_in s t" by (rule str_in_dropWhile_back)
qed

lemma is_space_lower_char: "is_space (lower_char c) = is_space c"
  by (auto simp: is_space_def lower_char_def whitespace_def ascii_uppercase_def ascii_lowercase_def)

lemma map_lower_dropWhile:
  "map lower_char (dropWhile is_space xs) = dropWhile is_space (map lower_char xs)"
proof -
  have comp: "is_space \<circ> lower_char = is_space" by (auto simp: is_space_lower_char)
  show ?thesis by (simp only: dropWhile_map comp)
qed

lemma lower_strip: "lower (strip t) = strip (lower t)"
  by (simp only: lower_def strip_def rev_map [symmetric] map_lower_dropWhile)

lemma marker_policy_strip: "marker_policy (strip t) = marker_policy t"
  by (simp add: marker_policy_def lower_strip str_in_strip is_space_def whitespace_def)

lemma marker_policy_achieved: "str_in ''achieved'' t \<Longrightarrow> marker_policy t"
proof -
  assume "str_in ''achieved'' t"
  then have "str_in (map lower_char ''achieved'') (map lower_char t)" by (rule str_in_map)
  moreover have "map lower_char ''achieved'' = ''achieved''"
    by (simp add: lower_char_def ascii_uppercase_def ascii_lowercase_def)
  ultimately show ?thesis by (simp add: marker_policy_def lower_def)
qed


section \<open>Facts about the loop\<close>

lemma main_loop_stop:
  "\<not> (review_count s \<le> m \<and> \<not> satisfied s \<and> uncaught s = None) \<Longrightarrow> main_loop ev m outline s = s"
  by (subst main_loop.simps) auto

lemma main_loop_step:
  "review_count s \<le> m \<Longrightarrow> \<not> satisfied s \<Longrightarrow> uncaught s = None \<Longrightarrow>
   main_loop ev m outline s = main_loop ev m outline (loop_body ev m outline s)"
  by (subst main_loop.simps) simp

lemma judge_function_achieved:
  "achieved (judge_function w m outline cr fb rc h) =
     (\<exists>content. chat w Judge (judge_prompt m outline cr fb rc h) = Inr content \<and> marker_policy content)"
proof (cases "chat w Judge (judge_prompt m outline cr fb rc h)")
  case (Inl e)
  then show ?thesis by (simp add: judge_function_def)
next
  case (Inr content)
  then have "achieved (judge_function w m outline cr fb rc h) = marker_policy (strip content)"
    by (simp add: judge_function_def Let_def marker_policy_def)
  then show ?thesis using Inr by (simp add: marker_policy_strip)
qed

lemma loop_body_cycles:
  "\<exists>c. cycles (loop_body ev m outline s) = cycles s @ [c] \<and> ran_at c = review_count s"
  by (auto simp: loop_body_def Let_def split: sum.splits)

lemma loop_body_satisfied:
  "satisfied (loop_body ev m outline s) =
     (satisfied s \<or> (\<exists>t. judge_reply ev m outline s = Some t \<and> marker_policy t))"
  by (auto simp: loop_body_def judge_reply_def Let_def judge_function_achieved split: sum.splits)

lemma loop_body_review_count:
  "uncaught s = None \<Longrightarrow> review_count (loop_body ev m outline s) =
     (if (\<exists>t. judge_reply ev m outline s = Some t \<and> marker_policy t) \<or> uncaught (loop_body ev m outline s) \<noteq> None
      then review_count s else review_count s + 1)"
  by (auto simp: loop_body_def judge_reply_def Let_def judge_function_achieved split: sum.splits)

lemma loop_body_length: "length (cycles (loop_body ev m outline s)) = Suc (length (cycles s))"
  using loop_body_cycles [of ev m outline s] by auto

lemma loop_body_continue:
  assumes "uncaught s = None" and "\<not> satisfied (loop_body ev m outline s)"
    and "uncaught (loop_body ev m outline s) = None"
  shows "review_count (loop_body ev m outline s) = review_count s + 1"
  using assms loop_body_review_count [of s ev m outline] loop_body_satisfied [of ev m outline s]
  by simp

lemma loop_body_monotone: "review_count s \<le> review_count (loop_body ev m outline s)"
  by (auto simp: loop_body_def Let_def split: sum.splits)



lemma main_cycles: "cycles (final (main ev m request))
   = cycles (main_loop ev m (manager_function (ev 0) request) initial_state)"
  by (simp add: main_def Let_def)


lemma save_feedback_returns:
  "makedirs w SaveFeedback output_directory = None \<Longrightarrow> \<exists>msg. save_feedback_function w fb = Inr msg"
  by (simp add: save_feedback_function_def Let_def split: option.splits)

lemma loop_body_uncaught:
  "uncaught (loop_body ev m outline s) =
     (case makedirs (ev (review_count s)) SaveFeedback output_directory of
        Some e \<Rightarrow> Some e | None \<Rightarrow> uncaught s)"
  by (auto simp: loop_body_def Let_def save_feedback_function_def split: sum.splits option.splits)

lemma main_loop_uncaught:
  assumes "\<forall>i. makedirs (ev i) SaveFeedback output_directory = None"
  shows "uncaught (main_loop ev m outline s) = uncaught s"
  using assms
proof (induction ev m outline s rule: main_loop.induct)
  case (1 ev m outline s)
  show ?case
  proof (cases "review_count s \<le> m \<and> \<not> satisfied s \<and> uncaught s = None")
    case True
    then have "main_loop ev m outline s = main_loop ev m outline (loop_body ev m outline s)"
      by (simp add: main_loop_step)
    moreover have "uncaught (main_loop ev m outline (loop_body ev m outline s))
                     = uncaught (loop_body ev m outline s)"
      using True "1.prems" by (rule "1.IH")
    ultimately show ?thesis using "1.prems" by (simp add: loop_body_uncaught)
  next
    case False
    then show ?thesis by (simp add: main_loop_stop)
  qed
qed

lemma loop_body_judged:
  "satisfied (loop_body ev m outline s) = (\<exists>c\<in>set (cycles (loop_body ev m outline s)). judged_satisfied c)"
  if "satisfied s = (\<exists>c\<in>set (cycles s). judged_satisfied c)"
  using that by (auto simp: loop_body_def Let_def judged_satisfied_def split: sum.splits)

lemma main_loop_judged:
  "satisfied s = (\<exists>c\<in>set (cycles s). judged_satisfied c) \<Longrightarrow>
   satisfied (main_loop ev m outline s)
     = (\<exists>c\<in>set (cycles (main_loop ev m outline s)). judged_satisfied c)"
proof (induction ev m outline s rule: main_loop.induct)
  case (1 ev m outline s)
  show ?case
  proof (cases "review_count s \<le> m \<and> \<not> satisfied s \<and> uncaught s = None")
    case True
    then have eq: "main_loop ev m outline s = main_loop ev m outline (loop_body ev m outline s)"
      by (simp add: main_loop_step)
    from "1.prems" have "satisfied (loop_body ev m outline s)
        = (\<exists>c\<in>set (cycles (loop_body ev m outline s)). judged_satisfied c)"
      by (rule loop_body_judged)
    with True show ?thesis unfolding eq by (rule "1.IH")
  next
    case False
    with "1.prems" show ?thesis by (simp add: main_loop_stop)
  qed
qed

lemma loop_body_numbering:
  assumes "map ran_at (cycles s) = map int [1..<Suc (length (cycles s))]"
    and "review_count s = int (length (cycles s)) + 1"
  shows "map ran_at (cycles (loop_body ev m outline s))
           = map int [1..<Suc (length (cycles (loop_body ev m outline s)))]"
proof -
  obtain c where c: "cycles (loop_body ev m outline s) = cycles s @ [c]" "ran_at c = review_count s"
    using loop_body_cycles [of ev m outline s] by blast
  show ?thesis using assms by (simp add: c)
qed

lemma main_loop_numbering:
  assumes "map ran_at (cycles s) = map int [1..<Suc (length (cycles s))]"
    and "\<not> satisfied s \<and> uncaught s = None \<longrightarrow> review_count s = int (length (cycles s)) + 1"
  shows "map ran_at (cycles (main_loop ev m outline s))
           = map int [1..<Suc (length (cycles (main_loop ev m outline s)))]"
  using assms
proof (induction ev m outline s rule: main_loop.induct)
  case (1 ev m outline s)
  show ?case
  proof (cases "review_count s \<le> m \<and> \<not> satisfied s \<and> uncaught s = None")
    case True
    let ?b = "loop_body ev m outline s"
    have eq: "main_loop ev m outline s = main_loop ev m outline ?b"
      using True by (simp add: main_loop_step)
    from True "1.prems" have rc: "review_count s = int (length (cycles s)) + 1" by simp
    have n: "map ran_at (cycles ?b) = map int [1..<Suc (length (cycles ?b))]"
      using "1.prems"(1) rc by (rule loop_body_numbering)
    have k: "\<not> satisfied ?b \<and> uncaught ?b = None \<longrightarrow> review_count ?b = int (length (cycles ?b)) + 1"
      using True rc by (auto simp: loop_body_continue loop_body_length)
    show ?thesis unfolding eq using True n k by (rule "1.IH")
  next
    case False
    with "1.prems" show ?thesis by (simp add: main_loop_stop)
  qed
qed

text \<open>The definitions that evaluate the model on the concrete environments.\<close>

lemmas text_eval = lower_def lower_char_def ascii_uppercase_def ascii_lowercase_def strip_def
  is_space_def whitespace_def

lemmas run_eval = main_def main_loop.simps loop_body_def scripted_def initial_state_def Let_def
  save_feedback_function_def judge_function_def async_feedback_branch_def text_eval

lemma main_final:
  "satisfied (final (main ev m request))
     = satisfied (main_loop ev m (manager_function (ev 0) request) initial_state)"
  "uncaught (final (main ev m request))
     = uncaught (main_loop ev m (manager_function (ev 0) request) initial_state)"
  "review_count (final (main ev m request))
     = review_count (main_loop ev m (manager_function (ev 0) request) initial_state)"
  by (simp_all add: main_def Let_def)

text \<open>
  Once the output directory exists, a failure to open or write a feedback file is caught
  inside \<open>save_feedback_function\<close>, and the loop body does not depend on it. Here \<open>f\<close>
  is any behaviour of file writing that agrees with the environment's on the generated
  script.
\<close>

lemma coder_function_open_write:
  assumes "\<forall>t. f (path_join output_directory ''solution.py'') t
                 = open_write w (path_join output_directory ''solution.py'') t"
  shows "coder_function (w\<lparr>open_write := f\<rparr>) plan extra = coder_function w plan extra"
  using assms
  by (auto simp: coder_function_def Let_def split: sum.splits option.splits compile_outcome.splits)

lemma feedback_write_failure_swallowed:
  assumes "makedirs (ev (review_count s)) SaveFeedback output_directory = None"
    and "\<forall>t. f (path_join output_directory ''solution.py'') t
                 = open_write (ev (review_count s)) (path_join output_directory ''solution.py'') t"
  shows "loop_body (ev(review_count s := (ev (review_count s))\<lparr>open_write := f\<rparr>)) m outline s
           = loop_body ev m outline s"
proof -
  let ?w = "ev (review_count s)"
  let ?w' = "?w\<lparr>open_write := f\<rparr>"
  let ?cr = "coder_function ?w outline (extra_instruction s)"
  let ?fb = "async_feedback_branch ?w ?cr"
  have cr: "coder_function ?w' outline (extra_instruction s) = ?cr"
    using assms(2) by (rule coder_function_open_write)
  have fb: "async_feedback_branch ?w' ?cr = ?fb"
    by (simp add: async_feedback_branch_def bojack_horseman_function_def
          mr_peanut_butter_function_def)
  have mk: "makedirs ?w' SaveFeedback output_directory = None"
    using assms(1) by simp
  obtain msg where sv: "save_feedback_function ?w ?fb = Inr msg"
    using save_feedback_returns [OF assms(1)] by blast
  obtain msg' where sv': "save_feedback_function ?w' ?fb = Inr msg'"
    using save_feedback_returns [OF mk] by blast
  have jd: "judge_function ?w' m outline ?cr ?fb (review_count s) h
              = judge_function ?w m outline ?cr ?fb (review_count s) h" for h
    by (simp add: judge_function_def)
  show ?thesis
    by (simp add: loop_body_def Let_def cr fb sv sv' jd)
qed


section \<open>Properties\<close>




text \<open>
  C2. A loop body started with \<open>satisfied\<close> false ends with \<open>satisfied\<close> true if and
  only if \<open>judge_function\<close> was reached in it, its chat call returned a text, and that text
  meets the marker policy (it contains "achieved" or "final summary", letter case ignored;
  stripping the text does not change this). No other step sets \<open>satisfied\<close>: at the end of
  \<open>main\<close> it is true exactly when some loop body of the run obtained a judge decision
  with \<open>achieved\<close> true.
\<close>

theorem satisfied_iff_judge_marker:
  assumes "\<not> satisfied s"
  shows "satisfied (loop_body ev m outline s)
           = (\<exists>t. judge_reply ev m outline s = Some t \<and> marker_policy t)
       \<and> satisfied (final (main ev m request))
           = (\<exists>c\<in>set (cycles (final (main ev m request))). judged_satisfied c)"
proof -
  have "satisfied initial_state = (\<exists>c\<in>set (cycles initial_state). judged_satisfied c)"
    by (simp add: initial_state_def)
  then have "satisfied (main_loop ev m (manager_function (ev 0) request) initial_state)
      = (\<exists>c\<in>set (cycles (main_loop ev m (manager_function (ev 0) request) initial_state)).
           judged_satisfied c)"
    by (rule main_loop_judged)
  then show ?thesis using assms by (simp add: loop_body_satisfied main_final main_cycles)
qed

theorem satisfied_iff_judge_marker_witness:
  "\<not> satisfied initial_state
   \<and> judge_reply approving_env 3 ''plan'' initial_state = Some ''The goal has been achieved.''
   \<and> marker_policy ''The goal has been achieved.''
   \<and> satisfied (loop_body approving_env 3 ''plan'' initial_state)"
proof -
  have a: "\<not> satisfied initial_state" by (simp add: initial_state_def)
  have b: "judge_reply approving_env 3 ''plan'' initial_state = Some ''The goal has been achieved.''"
    by (simp add: judge_reply_def approving_env_def scripted_def save_feedback_function_def Let_def)
  have c: "marker_policy ''The goal has been achieved.''"
    by (simp add: marker_policy_def text_eval)
  from satisfied_iff_judge_marker [OF a, of approving_env 3 "''plan''" "''request''"] b c
  have "satisfied (loop_body approving_env 3 ''plan'' initial_state)" by simp
  with a b c show ?thesis by simp
qed


text \<open>
  C3 (scenario A). If the iteration bound is at least 1 and, in iteration 1, the judge's
  text contains "achieved" (and the directory for the feedback files can be created), then
  \<open>main\<close> runs exactly one loop body, ends satisfied with no exception, and the
  conversation log holds exactly five entries in the order: plan, generation, critique,
  judgment, success. The outcome of the generation and of the critics does not matter.
\<close>

theorem scenario_A_single_iteration:
  assumes "1 \<le> m"
    and "makedirs (ev 1) SaveFeedback output_directory = None"
    and "\<forall>p. \<exists>t. chat (ev 1) Judge p = Inr t \<and> str_in ''achieved'' t"
  shows "satisfied (final (main ev m request))
       \<and> uncaught (final (main ev m request)) = None
       \<and> length (cycles (final (main ev m request))) = 1
       \<and> (\<exists>d. conversation_log (final (main ev m request))
                = [manager_entry, coder_entry 1, feedback_entry 1, judge_entry 1 d, success_entry])"
proof -
  let ?o = "manager_function (ev 0) request"
  let ?cr = "coder_function (ev 1) ?o []"
  let ?fb = "async_feedback_branch (ev 1) ?cr"
  let ?h = "[manager_entry, coder_entry 1, feedback_entry 1]"
  let ?jd = "judge_function (ev 1) m ?o ?cr ?fb 1 ?h"
  let ?b = "initial_state\<lparr>satisfied := True,
              conversation_log := ?h @ [judge_entry 1 (instruction ?jd), success_entry],
              cycles := [\<lparr>ran_at = 1, generated = ?cr, critiques = ?fb, judged = Some ?jd\<rparr>]\<rparr>"
  obtain msg where sv: "save_feedback_function (ev 1) ?fb = Inr msg"
    using save_feedback_returns [OF assms(2)] by blast
  obtain t where t: "chat (ev 1) Judge (judge_prompt m ?o ?cr ?fb 1 ?h) = Inr t"
      and mark: "str_in ''achieved'' t"
    using assms(3) by blast
  have ach: "achieved ?jd"
    using t mark by (simp add: judge_function_achieved marker_policy_achieved)
  have body: "loop_body ev m ?o initial_state = ?b"
    using sv ach by (simp add: loop_body_def initial_state_def Let_def)
  have "main_loop ev m ?o initial_state = main_loop ev m ?o (loop_body ev m ?o initial_state)"
    using assms(1) by (simp add: main_loop_step initial_state_def)
  also have "\<dots> = ?b" unfolding body by (simp add: main_loop_stop)
  finally have loop: "main_loop ev m ?o initial_state = ?b" .
  have fin: "final (main ev m request) = ?b"
    unfolding main_def Let_def loop by (simp add: initial_state_def)
  show ?thesis unfolding fin by (simp add: initial_state_def) (rule exI, rule refl)
qed

theorem scenario_A_single_iteration_witness:
  "satisfied (final (main approving_env 3 ''request''))
   \<and> uncaught (final (main approving_env 3 ''request'')) = None
   \<and> length (cycles (final (main approving_env 3 ''request''))) = 1
   \<and> (\<exists>d. conversation_log (final (main approving_env 3 ''request''))
            = [manager_entry, coder_entry 1, feedback_entry 1, judge_entry 1 d, success_entry])"
proof -
  have a: "(1::int) \<le> 3" by simp
  have b: "makedirs (approving_env 1) SaveFeedback output_directory = None"
    by (simp add: approving_env_def scripted_def)
  have c: "\<forall>p. \<exists>t. chat (approving_env 1) Judge p = Inr t \<and> str_in ''achieved'' t"
    by (simp add: approving_env_def scripted_def)
  show ?thesis by (rule scenario_A_single_iteration [of 3 approving_env "''request''", OF a b c])
qed


text \<open>
  C4. For every artifact the fan-out returns a result in which both fields are set: each
  field holds the stripped text its own critic call returned or, when that call raised,
  the error text of its own function; neither field depends on the outcome of the other
  call.
\<close>

theorem critique_fan_out_populated:
  "async_feedback_branch w data =
     \<lparr>negative_feedback =
        (case chat w Bojack (bojack_prompt data) of
           Inr content \<Rightarrow> strip content
         | Inl e \<Rightarrow> ''An error occurred in bojack_horseman_function: '' @ e),
      positive_feedback =
        (case chat w MrPeanut (mr_peanut_prompt data) of
           Inr content \<Rightarrow> strip content
         | Inl e \<Rightarrow> ''An error occurred in mr_peanut_butter_function: '' @ e)\<rparr>"
  by (simp add: async_feedback_branch_def bojack_horseman_function_def
        mr_peanut_butter_function_def)

theorem critique_fan_out_populated_witness:
  "async_feedback_branch one_critic_down \<lparr>code = ''pass'', output_text = NL\<rparr> =
     \<lparr>negative_feedback = ''An error occurred in bojack_horseman_function: Connection error.'',
      positive_feedback = ''Clear and correct.''\<rparr>"
  using critique_fan_out_populated [of one_critic_down "\<lparr>code = ''pass'', output_text = NL\<rparr>"]
  by (simp add: one_critic_down_def text_eval)


text \<open>
  C5. In \<open>coder_function\<close>, when the code was generated, saved and run: if the byte
  compiler reports a syntax error \<open>e\<close>, the execution output is the text
  "Syntax error detected: e", a newline, and then stdout, a newline and stderr of the run;
  if the check succeeds, the execution output is stdout, a newline and stderr alone, with
  nothing prepended.
\<close>

theorem syntax_error_marker_prepended:
  assumes "chat w Coder (coder_prompt plan extra) = Inr content"
    and "makedirs w Coder output_directory = None"
    and "open_write w (path_join output_directory ''solution.py'') (strip content) = None"
    and "subprocess_run w (strip content) = Inr result"
  shows "(py_compile w (strip content) = PyCompileError e \<longrightarrow>
            output_text (coder_function w plan extra)
              = (''Syntax error detected: '' @ e) @ NL @ (stdout result @ NL @ stderr result))
       \<and> (py_compile w (strip content) = Compiled \<longrightarrow>
            output_text (coder_function w plan extra) = stdout result @ NL @ stderr result)"
  using assms by (simp add: coder_function_def Let_def)

theorem syntax_error_marker_prepended_witness:
  "output_text (coder_function syntax_broken ''plan'' [])
     = ''Syntax error detected: invalid syntax'' @ NL @ ''partial'' @ NL @ ''SyntaxError''"
proof -
  let ?r = "\<lparr>returncode = 1, stdout = ''partial'', stderr = ''SyntaxError''\<rparr>"
  have a: "chat syntax_broken Coder (coder_prompt ''plan'' []) = Inr ''pass''"
    by (simp add: syntax_broken_def scripted_def)
  have s: "strip ''pass'' = ''pass''" by (simp add: text_eval)
  have b: "makedirs syntax_broken Coder output_directory = None"
    by (simp add: syntax_broken_def scripted_def)
  have c: "open_write syntax_broken (path_join output_directory ''solution.py'') (strip ''pass'') = None"
    by (simp add: syntax_broken_def scripted_def)
  have d: "subprocess_run syntax_broken (strip ''pass'') = Inr ?r"
    by (simp add: syntax_broken_def scripted_def)
  have e: "py_compile syntax_broken (strip ''pass'') = PyCompileError ''invalid syntax''"
    by (simp add: syntax_broken_def scripted_def)
  from syntax_error_marker_prepended [OF a b c d, of "''invalid syntax''"] e
  show ?thesis by simp
qed


text \<open>
  C6, as stated, fails on the loop body that ends the loop as satisfied: started from the
  initial state with a judge whose text contains "achieved", the body runs and leaves
  \<open>review_count\<close> at 1.
\<close>

theorem review_count_unchanged_when_satisfied:
  "review_count initial_state \<le> 3 \<and> \<not> satisfied initial_state \<and> uncaught initial_state = None
   \<and> review_count initial_state = 1
   \<and> review_count (loop_body approving_env 3 ''plan'' initial_state) = 1"
  by (simp add: approving_env_def run_eval)


text \<open>
  C6, amended. The iteration counter never decreases in a loop body. A loop body that no
  exception leaves increases it by exactly 1 when its judgment is not satisfied and leaves
  it unchanged when its judgment is satisfied (the \<open>break\<close> precedes the increment). In every
  run the loop bodies run with the counter values 1, 2, 3, ... in this order.
\<close>

theorem review_count_step:
  assumes "\<not> satisfied s" and "uncaught s = None"
  shows "review_count s \<le> review_count (loop_body ev m outline s)
       \<and> (uncaught (loop_body ev m outline s) = None \<longrightarrow>
            review_count (loop_body ev m outline s)
              = (if satisfied (loop_body ev m outline s) then review_count s
                 else review_count s + 1))
       \<and> map ran_at (cycles (final (main ev m request)))
            = map int [1..<Suc (length (cycles (final (main ev m request))))]"
proof -
  have "map ran_at (cycles (main_loop ev m (manager_function (ev 0) request) initial_state))
      = map int [1..<Suc (length (cycles (main_loop ev m (manager_function (ev 0) request)
                                                     initial_state)))]"
    by (rule main_loop_numbering) (simp_all add: initial_state_def)
  then show ?thesis
    using assms loop_body_review_count [of s ev m outline] loop_body_satisfied [of ev m outline s]
    by (simp add: loop_body_monotone main_cycles)
qed

theorem review_count_step_witness:
  "\<not> satisfied initial_state \<and> uncaught initial_state = None
   \<and> review_count initial_state = 1
   \<and> review_count (loop_body demanding_env 3 ''plan'' initial_state) = 2
   \<and> map ran_at (cycles (final (main demanding_env 3 ''request''))) = [1, 2, 3]"
proof -
  have a: "\<not> satisfied initial_state" and b: "uncaught initial_state = None"
    by (simp_all add: initial_state_def)
  have c: "\<not> satisfied (loop_body demanding_env 3 ''plan'' initial_state)"
    and d: "uncaught (loop_body demanding_env 3 ''plan'' initial_state) = None"
    by (simp_all add: demanding_env_def run_eval)
  have e: "length (cycles (final (main demanding_env 3 ''request''))) = 3"
    by (simp add: demanding_env_def run_eval)
  have f: "map int [1..<Suc 3] = [1, 2, 3]" by (simp add: upt_rec)
  from review_count_step [OF a b, of demanding_env 3 "''plan''" "''request''"] c d e f
  show ?thesis using a b by (simp add: initial_state_def)
qed


text \<open>
  C7. When \<open>review_count\<close> equals the iteration bound, the judge prompt is the prompt of
  any other iteration followed by a newline and the sentence "This is your final review.
  End the process by providing a final summary, regardless of whether the script fully
  meets the outline or not.", so it differs from the prompt of the other iterations; below
  the bound nothing is added. In both cases \<open>achieved\<close> is computed from the text the chat
  call returned by the marker policy alone: the same formula for every value of
  \<open>review_count\<close>.
\<close>

theorem final_review_changes_prompt_only:
  "(rc = m \<longrightarrow>
      judge_prompt m outline cr fb rc h
        = judge_base_prompt outline cr fb h @ NL @
          ''This is your final review. End the process by providing a final summary, regardless of whether the script fully meets the outline or not.''
      \<and> judge_prompt m outline cr fb rc h = judge_base_prompt outline cr fb h @ final_review_instruction
      \<and> judge_prompt m outline cr fb rc h \<noteq> judge_base_prompt outline cr fb h)
   \<and> (rc < m \<longrightarrow> judge_prompt m outline cr fb rc h = judge_base_prompt outline cr fb h)
   \<and> final_review_instruction \<noteq> []
   \<and> achieved (judge_function w m outline cr fb rc h)
       = (\<exists>content. chat w Judge (judge_prompt m outline cr fb rc h) = Inr content
                    \<and> marker_policy content)"
proof -
  have wording: "final_review_instruction
      = NL @ ''This is your final review. End the process by providing a final summary, regardless of whether the script fully meets the outline or not.''"
    by (simp add: final_review_instruction_def)
  have nonempty: "final_review_instruction \<noteq> []"
    by (simp add: final_review_instruction_def NL_def)
  have at_bound: "judge_prompt m outline cr fb m h
                    = judge_base_prompt outline cr fb h @ final_review_instruction"
    by (simp add: judge_prompt_def Let_def)
  have differs: "judge_prompt m outline cr fb m h \<noteq> judge_base_prompt outline cr fb h"
    unfolding at_bound using nonempty by simp
  have literal: "judge_prompt m outline cr fb m h
      = judge_base_prompt outline cr fb h @ NL @
        ''This is your final review. End the process by providing a final summary, regardless of whether the script fully meets the outline or not.''"
    by (simp only: at_bound wording)
  show ?thesis
  proof (intro conjI)
    show "rc = m \<longrightarrow>
      judge_prompt m outline cr fb rc h
        = judge_base_prompt outline cr fb h @ NL @
          ''This is your final review. End the process by providing a final summary, regardless of whether the script fully meets the outline or not.''
      \<and> judge_prompt m outline cr fb rc h = judge_base_prompt outline cr fb h @ final_review_instruction
      \<and> judge_prompt m outline cr fb rc h \<noteq> judge_base_prompt outline cr fb h"
    proof
      assume rc: "rc = m"
      show
        "judge_prompt m outline cr fb rc h
           = judge_base_prompt outline cr fb h @ NL @
             ''This is your final review. End the process by providing a final summary, regardless of whether the script fully meets the outline or not.''
         \<and> judge_prompt m outline cr fb rc h = judge_base_prompt outline cr fb h @ final_review_instruction
         \<and> judge_prompt m outline cr fb rc h \<noteq> judge_base_prompt outline cr fb h"
        unfolding rc by (intro conjI) (fact literal, fact at_bound, fact differs)
    qed
    show "rc < m \<longrightarrow> judge_prompt m outline cr fb rc h = judge_base_prompt outline cr fb h"
      by (simp add: judge_prompt_def Let_def)
    show "final_review_instruction \<noteq> []" by (rule nonempty)
    show "achieved (judge_function w m outline cr fb rc h)
       = (\<exists>content. chat w Judge (judge_prompt m outline cr fb rc h) = Inr content
                    \<and> marker_policy content)"
      by (rule judge_function_achieved)
  qed
qed

theorem final_review_changes_prompt_only_witness:
  "judge_prompt 3 ''plan'' \<lparr>code = ''pass'', output_text = NL\<rparr>
      \<lparr>negative_feedback = ''none'', positive_feedback = ''fine''\<rparr> 3 []
     = judge_base_prompt ''plan'' \<lparr>code = ''pass'', output_text = NL\<rparr>
         \<lparr>negative_feedback = ''none'', positive_feedback = ''fine''\<rparr> [] @ NL @
       ''This is your final review. End the process by providing a final summary, regardless of whether the script fully meets the outline or not.''
   \<and> judge_prompt 3 ''plan'' \<lparr>code = ''pass'', output_text = NL\<rparr>
      \<lparr>negative_feedback = ''none'', positive_feedback = ''fine''\<rparr> 3 []
     \<noteq> judge_base_prompt ''plan'' \<lparr>code = ''pass'', output_text = NL\<rparr>
         \<lparr>negative_feedback = ''none'', positive_feedback = ''fine''\<rparr> []
   \<and> judge_prompt 3 ''plan'' \<lparr>code = ''pass'', output_text = NL\<rparr>
      \<lparr>negative_feedback = ''none'', positive_feedback = ''fine''\<rparr> 2 []
     = judge_base_prompt ''plan'' \<lparr>code = ''pass'', output_text = NL\<rparr>
         \<lparr>negative_feedback = ''none'', positive_feedback = ''fine''\<rparr> []
   \<and> \<not> achieved (judge_function (demanding_env 3) 3 ''plan'' \<lparr>code = ''pass'', output_text = NL\<rparr>
          \<lparr>negative_feedback = ''none'', positive_feedback = ''fine''\<rparr> 3 [])"
proof -
  let ?cr = "\<lparr>code = ''pass'', output_text = NL\<rparr>"
  let ?fb = "\<lparr>negative_feedback = ''none'', positive_feedback = ''fine''\<rparr>"
  have a: "chat (demanding_env 3) Judge (judge_prompt 3 ''plan'' ?cr ?fb 3 [])
             = Inr ''Fix the division by zero.''"
    by (simp add: demanding_env_def scripted_def)
  have b: "\<not> marker_policy ''Fix the division by zero.''"
    by (simp add: marker_policy_def text_eval)
  have c: "(3::int) = 3" and d: "(2::int) < 3" by simp_all
  from final_review_changes_prompt_only [of 3 3 "''plan''" ?cr ?fb "[]" "demanding_env 3"] c a b
  have at_bound:
    "judge_prompt 3 ''plan'' ?cr ?fb 3 []
       = judge_base_prompt ''plan'' ?cr ?fb [] @ NL @
         ''This is your final review. End the process by providing a final summary, regardless of whether the script fully meets the outline or not.''"
    "judge_prompt 3 ''plan'' ?cr ?fb 3 [] \<noteq> judge_base_prompt ''plan'' ?cr ?fb []"
    "\<not> achieved (judge_function (demanding_env 3) 3 ''plan'' ?cr ?fb 3 [])"
    by simp_all
  from final_review_changes_prompt_only [of 2 3 "''plan''" ?cr ?fb "[]" "demanding_env 3"] d
  have below: "judge_prompt 3 ''plan'' ?cr ?fb 2 [] = judge_base_prompt ''plan'' ?cr ?fb []"
    by simp
  from at_bound below show ?thesis by simp
qed

text \<open>
  C8 does not hold for a failure of \<open>os.makedirs\<close> in \<open>save_feedback_function\<close>, which
  is called before the \<open>try\<close> block. Evaluated in an environment where \<open>./output\<close>
  cannot be created: \<open>coder_function\<close>, which creates the same directory inside its
  \<open>try\<close> block, turns the failure into its error result, while the exception of
  \<open>save_feedback_function\<close> leaves \<open>main\<close> in iteration 1, after the critique entry:
  no judgment, no report, exit status 1.
\<close>

theorem save_feedback_makedirs_aborts_run:
  "uncaught (final (main blocked_env 3 ''request'')) = Some file_exists_error
   \<and> report_result (main blocked_env 3 ''request'') = None
   \<and> exit_status blocked_env 3 ''request'' = 1
   \<and> conversation_log (final (main blocked_env 3 ''request''))
        = [manager_entry, coder_entry 1, feedback_entry 1]
   \<and> map generated (cycles (final (main blocked_env 3 ''request'')))
        = [coder_failed file_exists_error]"
  by (simp add: exit_status_def blocked_env_def coder_function_def run_eval)


text \<open>
  C9, as stated, fails: with an iteration bound of 1, an artifact whose execution returns
  code 1 with a traceback, and a judge that is not satisfied, the exit status is 0.
\<close>

theorem exit_status_zero_after_failed_execution:
  "map generated (cycles (final (main demanding_env 1 ''request'')))
     = [\<lparr>code = ''pass'', output_text = NL @ ''ZeroDivisionError: division by zero''\<rparr>]
   \<and> subprocess_run (demanding_env 1) ''pass'' = Inr failed_exit
   \<and> returncode failed_exit = 1
   \<and> \<not> satisfied (final (main demanding_env 1 ''request''))
   \<and> exit_status demanding_env 1 ''request'' = 0"
  by (simp add: exit_status_def demanding_env_def failed_exit_def coder_function_def run_eval)


text \<open>
  C9, amended. The exit status does not reflect the execution of the final artifact:
  \<open>main\<close> never reads the return code of the subprocess, and the exit status is 0
  whenever no exception leaves \<open>main\<close>, which is the case whenever the directory for
  the feedback files can be created in every iteration.
\<close>

theorem exit_status_zero_when_main_returns:
  assumes "\<forall>i. makedirs (ev i) SaveFeedback output_directory = None"
  shows "exit_status ev m request = 0"
proof -
  have "uncaught (main_loop ev m (manager_function (ev 0) request) initial_state)
          = uncaught initial_state"
    using assms by (rule main_loop_uncaught)
  then show ?thesis by (simp add: exit_status_def main_final initial_state_def)
qed

theorem exit_status_zero_when_main_returns_witness:
  "exit_status demanding_env 1 ''request'' = 0"
proof -
  have "\<forall>i. makedirs (demanding_env i) SaveFeedback output_directory = None"
    by (simp add: demanding_env_def scripted_def)
  then show ?thesis by (rule exit_status_zero_when_main_returns [of demanding_env 1 "''request''"])
qed


text \<open>
  C10. If the chat call of \<open>judge_function\<close> raises an exception with message \<open>e\<close>,
  the decision is \<open>achieved = False\<close> with the instruction
  "An error occurred in judge_function: e", whatever \<open>e\<close> says; and a loop body in
  which the judge returned no text does not set \<open>satisfied\<close>.
\<close>

theorem judge_failure_never_satisfies:
  "(chat w Judge (judge_prompt m outline cr fb rc h) = Inl e \<longrightarrow>
      judge_function w m outline cr fb rc h
        = \<lparr>achieved = False, instruction = ''An error occurred in judge_function: '' @ e\<rparr>)
   \<and> (\<not> satisfied s \<and> judge_reply ev m outline s = None \<longrightarrow>
        \<not> satisfied (loop_body ev m outline s))"
  by (simp add: judge_function_def loop_body_satisfied)

theorem judge_failure_never_satisfies_witness:
  "judge_function judge_down 3 ''plan'' \<lparr>code = ''pass'', output_text = NL\<rparr>
      \<lparr>negative_feedback = ''none'', positive_feedback = ''fine''\<rparr> 3 []
     = \<lparr>achieved = False,
        instruction = ''An error occurred in judge_function: goal achieved, final summary unavailable''\<rparr>
   \<and> \<not> satisfied (loop_body (\<lambda>i. judge_down) 3 ''plan'' initial_state)"
proof -
  let ?cr = "\<lparr>code = ''pass'', output_text = NL\<rparr>"
  let ?fb = "\<lparr>negative_feedback = ''none'', positive_feedback = ''fine''\<rparr>"
  have a: "chat judge_down Judge (judge_prompt 3 ''plan'' ?cr ?fb 3 [])
             = Inl ''goal achieved, final summary unavailable''"
    by (simp add: judge_down_def scripted_def)
  have b: "\<not> satisfied initial_state" by (simp add: initial_state_def)
  have c: "judge_reply (\<lambda>i. judge_down) 3 ''plan'' initial_state = None"
    by (simp add: judge_reply_def judge_down_def scripted_def save_feedback_function_def Let_def)
  from judge_failure_never_satisfies [of judge_down 3 "''plan''" ?cr ?fb 3 "[]"
         "''goal achieved, final summary unavailable''" initial_state "\<lambda>i. judge_down"] a b c
  show ?thesis by simp
qed

end
